theory Spec2Isabelle
  imports Complex_Main
begin

chapter \<open>The model of torch_utils.py\<close>

section \<open>Errors\<close>

text \<open>
  The exceptions that the modelled functions of \<^verbatim>\<open>torch_utils.py\<close> can let escape. A function
  that may raise returns \<open>error + 'a\<close>, with \<open>Inl\<close> for the exception.
\<close>

datatype error = RuntimeError | AttributeError | TypeError | KeyError

section \<open>Tensors\<close>

text \<open>
  A tensor is modelled as a one-dimensional tensor, the list of its entries; its shape is
  its length. Entries of numeric tensors are real numbers: rounding, overflow and the
  non-finite values of floating point are outside the model.

  Two one-dimensional shapes \<open>n\<close> and \<open>m\<close> broadcast when they are equal or one of them
  is 1. An in-place operation keeps the shape of the tensor it writes, so its argument
  must have that shape or shape 1; torch raises a \<^verbatim>\<open>RuntimeError\<close> otherwise.
\<close>

type_synonym 'a tensor = "'a list"

text \<open>The entries that \<^verbatim>\<open>self.copy_(src)\<close> writes into \<open>self\<close>.\<close>

definition copy_entries :: "'a tensor \<Rightarrow> 'a tensor \<Rightarrow> error + 'a tensor" where
  "copy_entries self src =
     (if length src = length self then Inr src
      else if length src = 1 then Inr (replicate (length self) (hd src))
      else Inl RuntimeError)"

text \<open>\<^verbatim>\<open>t * c\<close> for a tensor \<open>t\<close> and a Python number \<open>c\<close>.\<close>

definition smul :: "real tensor \<Rightarrow> real \<Rightarrow> real tensor" where
  "smul t c = map (\<lambda>x. x * c) t"

text \<open>\<^verbatim>\<open>a + b\<close> and \<^verbatim>\<open>a * b\<close> for two tensors, with broadcasting.\<close>

definition broadcast2 :: "(real \<Rightarrow> real \<Rightarrow> real) \<Rightarrow> real tensor \<Rightarrow> real tensor \<Rightarrow> error + real tensor" where
  "broadcast2 f a b =
     (if length a = length b then Inr (map2 f a b)
      else if length b = 1 then Inr (map (\<lambda>x. f x (hd b)) a)
      else if length a = 1 then Inr (map (\<lambda>y. f (hd a) y) b)
      else Inl RuntimeError)"

definition tadd :: "real tensor \<Rightarrow> real tensor \<Rightarrow> error + real tensor" where
  "tadd a b = broadcast2 (+) a b"

definition tmul :: "real tensor \<Rightarrow> real tensor \<Rightarrow> error + real tensor" where
  "tmul a b = broadcast2 (*) a b"

section \<open>Tensors under autograd\<close>

text \<open>
  A parameter of a network is a tensor that autograd knows: besides its entries it has the
  flags \<^verbatim>\<open>requires_grad\<close> and \<^verbatim>\<open>is_leaf\<close>. A parameter of a freshly built \<^verbatim>\<open>nn.Module\<close>
  requires grad and is a leaf. The gradient mode (\<^verbatim>\<open>torch.is_grad_enabled()\<close>) is an argument
  of every operation; it is on unless the caller has entered \<^verbatim>\<open>torch.no_grad()\<close>. The graph
  and the gradients themselves are not modelled.

  With the gradient mode on, torch refuses an in-place operation on a leaf that requires
  grad with a \<^verbatim>\<open>RuntimeError\<close>, before anything is written. The result of an operation
  requires grad when the mode is on and one of its inputs requires grad, and it is then no
  leaf; an in-place write from such a source makes the written tensor require grad and
  stop being a leaf.
\<close>

record 'a variable =
  data :: "'a tensor"
  requires_grad :: bool
  is_leaf :: bool

definition in_place_refused :: "bool \<Rightarrow> 'a variable \<Rightarrow> bool" where
  "in_place_refused grad_enabled t \<longleftrightarrow> grad_enabled \<and> requires_grad t \<and> is_leaf t"

definition op_result :: "bool \<Rightarrow> bool \<Rightarrow> 'a tensor \<Rightarrow> 'a variable" where
  "op_result grad_enabled inputs_require_grad entries =
     \<lparr>data = entries,
      requires_grad = (grad_enabled \<and> inputs_require_grad),
      is_leaf = (\<not> (grad_enabled \<and> inputs_require_grad))\<rparr>"

definition written :: "bool \<Rightarrow> 'a variable \<Rightarrow> bool \<Rightarrow> 'a tensor \<Rightarrow> 'a variable" where
  "written grad_enabled self src_requires_grad entries =
     \<lparr>data = entries,
      requires_grad = (requires_grad self \<or> (grad_enabled \<and> src_requires_grad)),
      is_leaf = (is_leaf self \<and> \<not> (grad_enabled \<and> src_requires_grad))\<rparr>"

text \<open>\<^verbatim>\<open>self.copy_(src)\<close> (named \<open>tensor_copy\<close> here): the tensor \<open>self\<close> after the call.\<close>

definition tensor_copy :: "bool \<Rightarrow> 'a variable \<Rightarrow> 'a variable \<Rightarrow> error + 'a variable" where
  "tensor_copy grad_enabled self src =
     (if in_place_refused grad_enabled self then Inl RuntimeError
      else (case copy_entries (data self) (data src) of
              Inl e \<Rightarrow> Inl e
            | Inr entries \<Rightarrow> Inr (written grad_enabled self (requires_grad src) entries)))"

text \<open>\<^verbatim>\<open>t * c\<close> for a parameter \<open>t\<close> and a Python number \<open>c\<close>, and \<^verbatim>\<open>a + b\<close>.\<close>

definition times_number :: "bool \<Rightarrow> real variable \<Rightarrow> real \<Rightarrow> real variable" where
  "times_number grad_enabled t c = op_result grad_enabled (requires_grad t) (smul (data t) c)"

definition plus_tensor :: "bool \<Rightarrow> real variable \<Rightarrow> real variable \<Rightarrow> error + real variable" where
  "plus_tensor grad_enabled a b =
     (case tadd (data a) (data b) of
        Inl e \<Rightarrow> Inl e
      | Inr entries \<Rightarrow> Inr (op_result grad_enabled (requires_grad a \<or> requires_grad b) entries))"

section \<open>Parameter synchronisation\<close>

text \<open>
  A network is seen through \<^verbatim>\<open>parameters()\<close> only: the list of its parameters, in iteration
  order. Source and target are taken to share no parameter tensor, so the source is the
  same before and after the loop. The functions change the target in place and return
  nothing: the model returns the parameters of the target after the call, together with
  the exception that ended the call, if one did.

  \<^verbatim>\<open>for target_param, param in zip(target.parameters(), source.parameters()): body\<close>
  runs the body on the pairs that \<^verbatim>\<open>zip\<close> yields and stops with the shorter list; target
  parameters that have no partner are never touched. An exception in the body ends the
  loop: the parameters written before stay written, the one the body was at and the later
  ones are as before.
\<close>

fun for_zip :: "('a \<Rightarrow> 'b \<Rightarrow> error + 'a) \<Rightarrow> 'a list \<Rightarrow> 'b list \<Rightarrow> 'a list \<times> error option" where
  "for_zip body (target_param # target) (param # source) =
     (case body target_param param of
        Inl e \<Rightarrow> (target_param # target, Some e)
      | Inr target_param' \<Rightarrow>
          (case for_zip body target source of
             (target', exc) \<Rightarrow> (target_param' # target', exc)))"
| "for_zip body target [] = (target, None)"
| "for_zip body [] source = ([], None)"

definition soft_update ::
  "bool \<Rightarrow> real variable list \<Rightarrow> real variable list \<Rightarrow> real \<Rightarrow> real variable list \<times> error option" where
  "soft_update grad_enabled source target tau =
     for_zip (\<lambda>target_param param.
                case plus_tensor grad_enabled (times_number grad_enabled target_param (1 - tau))
                       (times_number grad_enabled param tau) of
                  Inl e \<Rightarrow> Inl e
                | Inr blended \<Rightarrow> tensor_copy grad_enabled target_param blended)
       target source"

definition hard_update ::
  "bool \<Rightarrow> 'a variable list \<Rightarrow> 'a variable list \<Rightarrow> 'a variable list \<times> error option" where
  "hard_update grad_enabled source target =
     for_zip (\<lambda>target_param param. tensor_copy grad_enabled target_param param) target source"

text \<open>
  The entrywise blend \<open>target * (1 - tau) + source * tau\<close> of one pair of tensors of the
  same shape, used to state what \<open>soft_update\<close> leaves in the target.
\<close>

definition blend :: "real \<Rightarrow> real tensor \<Rightarrow> real tensor \<Rightarrow> real tensor" where
  "blend tau target_param param = map2 (\<lambda>t s. t * (1 - tau) + s * tau) target_param param"

text \<open>
  Concrete networks used to exercise the theorems. \<open>parameter\<close> is a parameter as
  \<^verbatim>\<open>nn.Module\<close> creates it; \<open>frozen\<close> is one whose \<^verbatim>\<open>requires_grad\<close> was set to \<open>False\<close>.
\<close>

definition parameter :: "'a tensor \<Rightarrow> 'a variable" where
  "parameter entries = \<lparr>data = entries, requires_grad = True, is_leaf = True\<rparr>"

definition frozen :: "'a tensor \<Rightarrow> 'a variable" where
  "frozen entries = \<lparr>data = entries, requires_grad = False, is_leaf = True\<rparr>"

definition net_a :: "real variable list" where
  "net_a = [parameter [1, 2], parameter [3]]"

definition net_b :: "real variable list" where
  "net_b = [parameter [10, 20], parameter [30]]"

definition net_c :: "real variable list" where
  "net_c = [parameter [5, 6], parameter [7], parameter [8, 9, 10]]"

definition net_frozen :: "real variable list" where
  "net_frozen = [frozen [1, 2], frozen [3]]"

section \<open>Objects and attribute access\<close>

text \<open>
  Python values are references to objects. The heap gives every object its attribute
  dictionary; all objects here are plain instances, whose attributes live in that dictionary
  and can be assigned. \<open>getattr\<close> takes the optional default as the list \<open>args\<close>, as the
  source passes it on (\<^verbatim>\<open>getattr(obj, attr, *args)\<close>): no default, one default, or too many
  arguments, which is a \<^verbatim>\<open>TypeError\<close>.
\<close>

type_synonym ref = nat

type_synonym heap = "ref \<Rightarrow> string \<rightharpoonup> ref"

definition getattr :: "heap \<Rightarrow> ref \<Rightarrow> string \<Rightarrow> ref list \<Rightarrow> error + ref" where
  "getattr h obj name args =
     (case args of
        [] \<Rightarrow> (case h obj name of None \<Rightarrow> Inl AttributeError | Some v \<Rightarrow> Inr v)
      | [dflt] \<Rightarrow> (case h obj name of None \<Rightarrow> Inr dflt | Some v \<Rightarrow> Inr v)
      | _ \<Rightarrow> Inl TypeError)"

definition setattr :: "heap \<Rightarrow> ref \<Rightarrow> string \<Rightarrow> ref \<Rightarrow> heap" where
  "setattr h obj name val = h(obj := (h obj)(name \<mapsto> val))"

text \<open>
  \<^verbatim>\<open>s.split(sep)\<close> and \<^verbatim>\<open>s.rpartition(sep)\<close> for a separator of one character. \<open>split\<close>
  never returns the empty list; \<open>rpartition\<close> cuts at the last separator and returns two
  empty strings and \<open>s\<close> when there is none.
\<close>

fun str_split :: "char \<Rightarrow> string \<Rightarrow> string list" where
  "str_split sep [] = [[]]"
| "str_split sep (c # cs) =
     (if c = sep then [] # str_split sep cs
      else (case str_split sep cs of
              w # ws \<Rightarrow> (c # w) # ws
            | [] \<Rightarrow> [[c]]))"

definition str_rpartition :: "char \<Rightarrow> string \<Rightarrow> string \<times> string \<times> string" where
  "str_rpartition sep s =
     (if sep \<in> set s
      then (rev (tl (dropWhile (\<lambda>c. c \<noteq> sep) (rev s))), [sep],
            rev (takeWhile (\<lambda>c. c \<noteq> sep) (rev s)))
      else ([], [], s))"

text \<open>
  \<^verbatim>\<open>functools.reduce(f, [acc] + xs)\<close>: without an initial value the first element of the
  list starts the accumulation, so the list is given here as its head and its tail. An
  exception raised by \<open>f\<close> ends the reduction.
\<close>

fun reduce :: "('a \<Rightarrow> 'b \<Rightarrow> error + 'a) \<Rightarrow> 'a \<Rightarrow> 'b list \<Rightarrow> error + 'a" where
  "reduce f acc [] = Inr acc"
| "reduce f acc (x # xs) =
     (case f acc x of
        Inl e \<Rightarrow> Inl e
      | Inr acc' \<Rightarrow> reduce f acc' xs)"

definition rgetattr :: "heap \<Rightarrow> ref \<Rightarrow> string \<Rightarrow> ref list \<Rightarrow> error + ref" where
  "rgetattr h obj attr args =
     reduce (\<lambda>obj attr. getattr h obj attr args) obj (str_split CHR ''.'' attr)"

definition rsetattr :: "heap \<Rightarrow> ref \<Rightarrow> string \<Rightarrow> ref \<Rightarrow> error + heap" where
  "rsetattr h obj attr val =
     (case str_rpartition CHR ''.'' attr of
        (pre, _, post) \<Rightarrow>
          (case (if pre \<noteq> [] then rgetattr h obj pre [] else Inr obj) of
             Inl e \<Rightarrow> Inl e
           | Inr parent \<Rightarrow> Inr (setattr h parent post val)))"

text \<open>
  The Python expression \<^verbatim>\<open>obj.a.b.c\<close> is an attribute access nested to the left; its
  evaluation is given on its own, to compare \<open>rgetattr\<close> with it.
\<close>

datatype expr = Obj ref | Attribute expr string

fun eval :: "heap \<Rightarrow> expr \<Rightarrow> error + ref" where
  "eval h (Obj r) = Inr r"
| "eval h (Attribute e name) =
     (case eval h e of
        Inl x \<Rightarrow> Inl x
      | Inr v \<Rightarrow> getattr h v name [])"

text \<open>\<^verbatim>\<open>sep.join(xs)\<close> for a separator of one character.\<close>

fun str_join :: "char \<Rightarrow> string list \<Rightarrow> string" where
  "str_join sep [] = []"
| "str_join sep [x] = x"
| "str_join sep (x # y # ys) = x @ sep # str_join sep (y # ys)"

text \<open>
  The attribute reads, as pairs of an object and a name, that resolving a list of segments
  without a default performs, up to the first one that fails.
\<close>

fun reads :: "heap \<Rightarrow> ref \<Rightarrow> string list \<Rightarrow> (ref \<times> string) list" where
  "reads h obj [] = []"
| "reads h obj (name # names) =
     (obj, name) # (case h obj name of None \<Rightarrow> [] | Some v \<Rightarrow> reads h v names)"

text \<open>
  Concrete heaps. In \<open>heap_tree\<close> object 0 has \<open>a\<close> = 1, object 1 has \<open>b\<close> = 2 and object 2 has
  \<open>c\<close> = 3. In \<open>heap_cyclic\<close> object 0 has \<open>a\<close> = 0, a reference to itself. In \<open>heap_default\<close>
  object 0 has no attribute and object 1 has \<open>b\<close> = 2.
\<close>

definition heap_tree :: heap where
  "heap_tree = (\<lambda>r. Map.empty)(0 := [''a'' \<mapsto> 1], 1 := [''b'' \<mapsto> 2], 2 := [''c'' \<mapsto> 3])"

definition heap_cyclic :: heap where
  "heap_cyclic = (\<lambda>r. Map.empty)(0 := [''a'' \<mapsto> 0])"

definition heap_default :: heap where
  "heap_default = (\<lambda>r. Map.empty)(1 := [''b'' \<mapsto> 2])"

section \<open>Reparameterisation\<close>

text \<open>
  \<^verbatim>\<open>t.clamp(lo, hi)\<close> bounds every entry from below, then from above. \<^verbatim>\<open>self.add_(other)\<close>
  adds in place (named \<open>tensor_add\<close> here), so \<open>other\<close> must have the shape of \<open>self\<close> or
  shape 1.
\<close>

definition clamp :: "real tensor \<Rightarrow> real \<Rightarrow> real \<Rightarrow> real tensor" where
  "clamp t lo hi = map (\<lambda>x. min (max x lo) hi) t"

definition tensor_add :: "real tensor \<Rightarrow> real tensor \<Rightarrow> error + real tensor" where
  "tensor_add self other =
     (if length other = length self then Inr (map2 (+) self other)
      else if length other = 1 then Inr (map (\<lambda>x. x + hd other) self)
      else Inl RuntimeError)"

text \<open>
  The random draw is an input of the model: \<open>normal i\<close> is the sample that \<^verbatim>\<open>normal_()\<close>
  writes at entry \<open>i\<close> of the new tensor, which \<^verbatim>\<open>std.new(std.size())\<close> creates with the
  size of \<open>std\<close>. That the samples follow a standard normal distribution is a property of
  torch's generator and is not expressed here.
\<close>

definition reparameterize :: "(nat \<Rightarrow> real) \<Rightarrow> real tensor \<Rightarrow> real tensor \<Rightarrow> error + real tensor" where
  "reparameterize normal mu logvar =
     (let logstd = clamp (map (\<lambda>x. 0.5 * x) logvar) (- 4) 15;
          std = map exp logstd;
          eps = map normal [0..<length std]
      in case tmul eps std of
           Inl e \<Rightarrow> Inl e
         | Inr z \<Rightarrow> tensor_add z mu)"

section \<open>Learning-rate scheduler from the configuration\<close>

text \<open>
  The configuration is a mapping of string keys to mappings of string keys to scalars or
  lists. Subscripting with a missing key raises \<^verbatim>\<open>KeyError\<close>; \<^verbatim>\<open>len\<close> of a scalar raises
  \<^verbatim>\<open>TypeError\<close>. A \<^verbatim>\<open>MultiStepLR\<close> scheduler is the record of the arguments it was built
  with.
\<close>

datatype config_value = Scalar real | ListOf "int list"

type_synonym config = "string \<rightharpoonup> (string \<rightharpoonup> config_value)"

definition getitem :: "('k \<rightharpoonup> 'v) \<Rightarrow> 'k \<Rightarrow> error + 'v" where
  "getitem d k = (case d k of None \<Rightarrow> Inl KeyError | Some v \<Rightarrow> Inr v)"

definition getitem2 :: "config \<Rightarrow> string \<Rightarrow> string \<Rightarrow> error + config_value" where
  "getitem2 d k1 k2 = (case getitem d k1 of Inl e \<Rightarrow> Inl e | Inr d1 \<Rightarrow> getitem d1 k2)"

definition len :: "config_value \<Rightarrow> error + nat" where
  "len v = (case v of ListOf xs \<Rightarrow> Inr (length xs) | Scalar x \<Rightarrow> Inl TypeError)"

record MultiStepLR =
  lr_optimizer :: ref
  milestones :: config_value
  gamma :: config_value

definition lr_scheduler_from_optim_params :: "config \<Rightarrow> ref \<Rightarrow> ref \<Rightarrow> error + MultiStepLR option" where
  "lr_scheduler_from_optim_params net_optim_params net optimizer =
     (case getitem2 net_optim_params ''learning_rate'' ''epoch_schedule'' of
        Inl e \<Rightarrow> Inl e
      | Inr schedule \<Rightarrow>
          (case len schedule of
             Inl e \<Rightarrow> Inl e
           | Inr n \<Rightarrow>
               if n > 0 then
                 (case getitem2 net_optim_params ''learning_rate'' ''epoch_schedule'' of
                    Inl e \<Rightarrow> Inl e
                  | Inr ms \<Rightarrow>
                      (case getitem2 net_optim_params ''learning_rate'' ''decay_factor'' of
                         Inl e \<Rightarrow> Inl e
                       | Inr g \<Rightarrow>
                           Inr (Some \<lparr>lr_optimizer = optimizer, milestones = ms, gamma = g\<rparr>)))
               else Inr None))"

text \<open>Two configurations: one with milestones 10 and 20, one with no milestone.\<close>

definition config_schedule :: config where
  "config_schedule =
     [''learning_rate'' \<mapsto> [''epoch_schedule'' \<mapsto> ListOf [10, 20], ''decay_factor'' \<mapsto> Scalar (1 / 10)]]"

definition config_no_schedule :: config where
  "config_no_schedule = [''learning_rate'' \<mapsto> [''epoch_schedule'' \<mapsto> ListOf []]]"

section \<open>Backpropagation driver\<close>

text \<open>
  The calls into torch are parameters of the model: each is a function on the state of the
  framework (of any type \<open>'s\<close>) that returns the new state or the exception it raises. The
  network, the optimizer and the loss are references. \<open>grads fw net s\<close> is the list of
  \<^verbatim>\<open>p.grad\<close> for \<^verbatim>\<open>p in net.parameters()\<close> in state \<open>s\<close>, with \<open>None\<close> for a parameter that has
  no gradient.
\<close>

record 's torch =
  zero_grad :: "ref \<Rightarrow> 's \<Rightarrow> error + 's"
  backward :: "ref \<Rightarrow> bool \<Rightarrow> 's \<Rightarrow> error + 's"
  clip_grad_norm :: "ref \<Rightarrow> real \<Rightarrow> 's \<Rightarrow> error + 's"
  step :: "ref \<Rightarrow> 's \<Rightarrow> error + 's"
  grads :: "ref \<Rightarrow> 's \<Rightarrow> real tensor option list"

text \<open>\<^verbatim>\<open>t.norm(2)\<close>: the L2 norm of a tensor.\<close>

definition norm2 :: "real tensor \<Rightarrow> real" where
  "norm2 t = sqrt (sum_list (map (\<lambda>x. x\<^sup>2) t))"

definition backprop_for_loss ::
  "'s torch \<Rightarrow> ref \<Rightarrow> ref \<Rightarrow> ref \<Rightarrow> real option \<Rightarrow> bool \<Rightarrow> 's \<Rightarrow> error + real \<times> 's" where
  "backprop_for_loss fw net optim loss max_grad_norm retain_graph s =
     (case zero_grad fw optim s of
        Inl e \<Rightarrow> Inl e
      | Inr s1 \<Rightarrow>
     (case backward fw loss retain_graph s1 of
        Inl e \<Rightarrow> Inl e
      | Inr s2 \<Rightarrow>
     (case (case max_grad_norm of
              None \<Rightarrow> Inr s2
            | Some m \<Rightarrow> clip_grad_norm fw net m s2) of
        Inl e \<Rightarrow> Inl e
      | Inr s3 \<Rightarrow>
          (let grad_norms =
                 fold (\<lambda>p_grad grad_norms.
                         case p_grad of
                           None \<Rightarrow> grad_norms
                         | Some g \<Rightarrow> grad_norms + (norm2 g)\<^sup>2)
                   (grads fw net s3) 0
           in case step fw optim s3 of
                Inl e \<Rightarrow> Inl e
              | Inr s4 \<Rightarrow> Inr (grad_norms, s4)))))"

text \<open>
  The gradients that are present, and the global gradient norm: the L2 norm of all the
  entries of all the gradients taken together.
\<close>

definition present :: "'a option list \<Rightarrow> 'a list" where
  "present xs = concat (map (\<lambda>x. case x of None \<Rightarrow> [] | Some g \<Rightarrow> [g]) xs)"

definition global_norm :: "real tensor option list \<Rightarrow> real" where
  "global_norm gs = norm2 (concat (present gs))"

text \<open>
  The sum of the squared L2 norms of the gradients that are present, as a closed expression
  for what \<open>backprop_for_loss\<close> accumulates.
\<close>

definition grad_norm_statistic :: "real tensor option list \<Rightarrow> real" where
  "grad_norm_statistic gs = sum_list (map (\<lambda>g. (norm2 g)\<^sup>2) (present gs))"

text \<open>
  A framework for exercising the theorems: the state is the list of gradients itself;
  \<open>backward\<close> deposits the gradients 3, none and 4, clipping halves every gradient.
\<close>

definition toy_torch :: "(real tensor option list) torch" where
  "toy_torch =
     \<lparr>zero_grad = (\<lambda>optim s. Inr (map (\<lambda>g. None) s)),
      backward = (\<lambda>loss retain_graph s. Inr [Some [3], None, Some [4]]),
      clip_grad_norm = (\<lambda>net m s. Inr (map (map_option (\<lambda>g. smul g (1 / 2))) s)),
      step = (\<lambda>optim s. Inr s),
      grads = (\<lambda>net s. s)\<rparr>"

section \<open>Conditional scope\<close>

text \<open>
  The two scopes that \<open>maybe_no_grad\<close> can return. A \<^verbatim>\<open>with\<close> statement calls \<^verbatim>\<open>__enter__\<close>,
  runs its body and calls \<^verbatim>\<open>__exit__\<close> with the exception the body raised, or with \<open>None\<close>:
  the exception is dropped when \<^verbatim>\<open>__exit__\<close> returns a true value and goes on to the caller
  otherwise. The state is torch's gradient mode, which \<^verbatim>\<open>torch.no_grad()\<close> switches off
  on entry and restores on exit; the scope object keeps the mode to restore.
\<close>

datatype pyvalue = NoneValue | BoolValue bool

fun truthy :: "pyvalue \<Rightarrow> bool" where
  "truthy NoneValue = False"
| "truthy (BoolValue b) = b"

datatype scope = dummy_context_mgr | no_grad bool

definition maybe_no_grad :: "bool \<Rightarrow> scope" where
  "maybe_no_grad ng = (if ng then no_grad False else dummy_context_mgr)"

fun enter :: "scope \<Rightarrow> bool \<Rightarrow> pyvalue \<times> scope \<times> bool" where
  "enter dummy_context_mgr grad_enabled = (NoneValue, dummy_context_mgr, grad_enabled)"
| "enter (no_grad prev) grad_enabled = (NoneValue, no_grad grad_enabled, False)"

fun exit :: "scope \<Rightarrow> error option \<Rightarrow> bool \<Rightarrow> pyvalue \<times> bool" where
  "exit dummy_context_mgr exc grad_enabled = (BoolValue False, grad_enabled)"
| "exit (no_grad prev) exc grad_enabled = (NoneValue, prev)"

definition with_scope :: "scope \<Rightarrow> (bool \<Rightarrow> error + 'a) \<Rightarrow> bool \<Rightarrow> (error + 'a option) \<times> bool" where
  "with_scope cm body grad_enabled =
     (case enter cm grad_enabled of
        (entered, cm1, g1) \<Rightarrow>
          (case body g1 of
             Inl e \<Rightarrow>
               (case exit cm1 (Some e) g1 of
                  (suppress, g2) \<Rightarrow> (if truthy suppress then Inr None else Inl e, g2))
           | Inr v \<Rightarrow>
               (case exit cm1 None g1 of
                  (suppress, g2) \<Rightarrow> (Inr (Some v), g2))))"

section \<open>Timing and logging\<close>

text \<open>
  The effects of the timing helpers are recorded in the world: the device synchronisations,
  the lines printed and the writes to a log file, in order. \<^verbatim>\<open>time.time()\<close> reads the
  clock, whose successive readings are given by \<open>clock\<close>. The formatted line
  \<^verbatim>\<open>f"{name:30s} EP: {elapsed_ms:.2f} ms"\<close> is the parameter \<open>fmt\<close>, applied to the name and the
  elapsed time. A log file is a reference (the argument \<open>log\<close> of the source is \<open>logfile\<close>
  here). The device synchronisation itself is taken to succeed.
\<close>

datatype effect = Synchronize | Print string | Write ref string | Flush ref

record world =
  clock :: "nat \<Rightarrow> real"
  readings :: nat
  effects :: "effect list"

definition cuda_synchronize :: "world \<Rightarrow> world" where
  "cuda_synchronize w = w\<lparr>effects := effects w @ [Synchronize]\<rparr>"

definition time_time :: "world \<Rightarrow> real \<times> world" where
  "time_time w = (clock w (readings w), w\<lparr>readings := readings w + 1\<rparr>)"

definition print :: "string \<Rightarrow> world \<Rightarrow> world" where
  "print line w = w\<lparr>effects := effects w @ [Print line]\<rparr>"

definition print_log :: "string \<Rightarrow> ref \<Rightarrow> bool \<Rightarrow> bool \<Rightarrow> world \<Rightarrow> world" where
  "print_log print_str logfile same_line display w =
     (let w1 = (if display
                then (if same_line then print print_str w
                      else print (print_str @ [CHR 0x0A]) w)
                else w);
          w2 = (if same_line then w1\<lparr>effects := effects w1 @ [Write logfile print_str]\<rparr>
                else w1\<lparr>effects := effects w1 @ [Write logfile (print_str @ [CHR 0x0A])]\<rparr>)
      in w2\<lparr>effects := effects w2 @ [Flush logfile]\<rparr>)"

definition tic :: "bool \<Rightarrow> world \<Rightarrow> real option \<times> world" where
  "tic timer w =
     (if timer then
        (case time_time (cuda_synchronize w) of
           (start_time, w1) \<Rightarrow> (Some start_time, w1))
      else (None, w))"

definition toc ::
  "(string \<Rightarrow> real \<Rightarrow> string) \<Rightarrow> real option \<Rightarrow> string \<Rightarrow> bool \<Rightarrow> ref option \<Rightarrow> world \<Rightarrow> error + real option \<times> world" where
  "toc fmt start_time name timer logfile w =
     (if timer then
        (case time_time (cuda_synchronize w) of
           (end_time, w1) \<Rightarrow>
             (case start_time of
                None \<Rightarrow> Inl TypeError
              | Some start \<Rightarrow>
                  (let elapsed_ms = (end_time - start) * 1000;
                       print_str = fmt name elapsed_ms
                   in case logfile of
                        Some l \<Rightarrow> Inr (Some elapsed_ms, print_log print_str l False False w1)
                      | None \<Rightarrow> Inr (Some elapsed_ms, print (print_str @ [CHR 0x0A]) w1))))
      else Inr (None, w))"

chapter \<open>Properties\<close>

section \<open>Properties of the parameter synchronisation\<close>

lemma copy_entries_same_shape: "length src = length self \<Longrightarrow> copy_entries self src = Inr src"
  by (simp add: copy_entries_def)

lemma tadd_same_shape: "length a = length b \<Longrightarrow> tadd a b = Inr (map2 (+) a b)"
  by (simp add: tadd_def broadcast2_def)

lemma tadd_error: "tadd a b = Inl e \<Longrightarrow> e = RuntimeError"
  by (auto simp: tadd_def broadcast2_def split: if_splits)

lemma map2_smul_add:
  "map2 (+) (smul a c) (smul b d) = map2 (\<lambda>x y. x * c + y * d) a b"
  by (simp add: smul_def zip_map_map case_prod_unfold)

lemma tensor_copy_refused:
  "in_place_refused grad_enabled self \<Longrightarrow> tensor_copy grad_enabled self src = Inl RuntimeError"
  by (simp add: tensor_copy_def)

lemma tensor_copy_same_shape:
  assumes "\<not> in_place_refused grad_enabled self" and "length (data src) = length (data self)"
  shows "tensor_copy grad_enabled self src =
           Inr (written grad_enabled self (requires_grad src) (data src))"
  using assms by (simp add: tensor_copy_def copy_entries_same_shape)

lemma tensor_copy_error: "tensor_copy grad_enabled self src = Inl e \<Longrightarrow> e = RuntimeError"
  by (auto simp: tensor_copy_def copy_entries_def split: if_splits)

lemma data_written: "data (written grad_enabled self r entries) = entries"
  by (simp add: written_def)

lemma written_no_grad: "written False self r (data self) = self"
  by (simp add: written_def)

text \<open>The body of the loop of \<open>soft_update\<close>, on one pair of parameters.\<close>

lemma soft_body_refused:
  assumes "in_place_refused grad_enabled target_param"
  shows "(case plus_tensor grad_enabled (times_number grad_enabled target_param (1 - tau))
                 (times_number grad_enabled param tau) of
            Inl e \<Rightarrow> Inl e
          | Inr blended \<Rightarrow> tensor_copy grad_enabled target_param blended) = Inl RuntimeError"
  using assms
  by (auto simp: plus_tensor_def tensor_copy_refused split: sum.splits dest: tadd_error)

lemma soft_body_same_shape:
  assumes "\<not> in_place_refused grad_enabled target_param"
    and "length (data param) = length (data target_param)"
  shows "(case plus_tensor grad_enabled (times_number grad_enabled target_param (1 - tau))
                 (times_number grad_enabled param tau) of
            Inl e \<Rightarrow> Inl e
          | Inr blended \<Rightarrow> tensor_copy grad_enabled target_param blended) =
         Inr (written grad_enabled target_param
                (grad_enabled \<and> (requires_grad target_param \<or> requires_grad param))
                (blend tau (data target_param) (data param)))"
proof -
  let ?r = "grad_enabled \<and> (requires_grad target_param \<or> requires_grad param)"
  have len: "length (smul (data target_param) (1 - tau)) = length (smul (data param) tau)"
    using assms(2) by (simp add: smul_def)
  have sum: "tadd (smul (data target_param) (1 - tau)) (smul (data param) tau) =
      Inr (blend tau (data target_param) (data param))"
    using len by (simp only: tadd_same_shape map2_smul_add blend_def)
  have blended: "plus_tensor grad_enabled (times_number grad_enabled target_param (1 - tau))
      (times_number grad_enabled param tau) =
      Inr (op_result grad_enabled ?r (blend tau (data target_param) (data param)))"
    using sum by (auto simp: plus_tensor_def times_number_def op_result_def)
  have shape: "length (blend tau (data target_param) (data param)) = length (data target_param)"
    using assms(2) by (simp add: blend_def)
  have "tensor_copy grad_enabled target_param
      (op_result grad_enabled ?r (blend tau (data target_param) (data param))) =
      Inr (written grad_enabled target_param ?r (blend tau (data target_param) (data param)))"
    using assms(1) shape
    by (auto simp: tensor_copy_def copy_entries_same_shape op_result_def written_def)
  then show ?thesis by (simp add: blended)
qed

text \<open>
  When the body succeeds on every pair that \<open>zip\<close> yields, the loop rewrites the paired
  prefix of the target, keeps the rest of it and raises nothing.
\<close>

lemma for_zip_success:
  assumes "\<And>t s. (t, s) \<in> set (zip target source) \<Longrightarrow> body t s = Inr (g t s)"
  shows "for_zip body target source =
           (map2 g target source @ drop (length source) target, None)"
  using assms
proof (induction body target source rule: for_zip.induct)
  case (1 body target_param target param source)
  have "body target_param param = Inr (g target_param param)"
    using "1.prems" by simp
  moreover have "for_zip body target source =
      (map2 g target source @ drop (length source) target, None)"
    using "1.IH" "1.prems" calculation by simp
  ultimately show ?case by simp
next
  case (2 body target)
  show ?case by simp
next
  case (3 body v va)
  show ?case by simp
qed

text \<open>
  Whatever the body does, and whether or not it raises, the loop leaves the number of
  target parameters and every target parameter past the length of the source as they were.
\<close>

lemma for_zip_frame:
  "length (fst (for_zip body target source)) = length target \<and>
   drop (length source) (fst (for_zip body target source)) = drop (length source) target"
proof (induction body target source rule: for_zip.induct)
  case (1 body target_param target param source)
  then show ?case by (auto split: sum.splits prod.splits)
next
  case (2 body target)
  then show ?case by simp
next
  case (3 body v va)
  then show ?case by simp
qed

text \<open>A body that keeps the entries of what it writes keeps the entries of the target.\<close>

lemma for_zip_keeps:
  assumes "\<And>t s t'. (t, s) \<in> set (zip target source) \<Longrightarrow> body t s = Inr t' \<Longrightarrow> f t' = f t"
  shows "map f (fst (for_zip body target source)) = map f target"
  using assms
proof (induction body target source rule: for_zip.induct)
  case (1 body target_param target param source)
  show ?case
  proof (cases "body target_param param")
    case (Inl e)
    then show ?thesis by simp
  next
    case (Inr t')
    have rest: "map f (fst (for_zip body target source)) = map f target"
      using "1.IH"[OF Inr] "1.prems" by auto
    have "f t' = f target_param" using "1.prems"[of target_param param t'] Inr by simp
    then show ?thesis using Inr rest by (cases "for_zip body target source") simp_all
  qed
next
  case (2 body target)
  show ?case by simp
next
  case (3 body v va)
  show ?case by simp
qed

text \<open>The loop raises nothing exactly when the body succeeds on every pair.\<close>

lemma for_zip_no_exception:
  "snd (for_zip body target source) = None \<longleftrightarrow>
     (\<forall>(t, s)\<in>set (zip target source). \<exists>t'. body t s = Inr t')"
proof (induction body target source rule: for_zip.induct)
  case (1 body target_param target param source)
  show ?case
  proof (cases "body target_param param")
    case (Inl e)
    then show ?thesis by auto
  next
    case (Inr t')
    then show ?thesis using "1.IH"[OF Inr] by (auto split: prod.splits)
  qed
next
  case (2 body target)
  show ?case by simp
next
  case (3 body v va)
  show ?case by simp
qed

lemma zip_nth_pair:
  assumes "(t, s) \<in> set (zip target source)"
  obtains i where "i < min (length source) (length target)" "target ! i = t" "source ! i = s"
  using assms by (auto simp: in_set_zip)

lemma hard_update_prefix:
  assumes "\<forall>i<min (length source) (length target).
             length (data (source ! i)) = length (data (target ! i)) \<and>
             \<not> in_place_refused grad_enabled (target ! i)"
  shows "hard_update grad_enabled source target =
           (map2 (\<lambda>t s. written grad_enabled t (requires_grad s) (data s)) target source
              @ drop (length source) target, None)"
  unfolding hard_update_def
proof (rule for_zip_success)
  fix t s
  assume "(t, s) \<in> set (zip target source)"
  then obtain i where "i < min (length source) (length target)" "target ! i = t" "source ! i = s"
    by (rule zip_nth_pair)
  then have "\<not> in_place_refused grad_enabled t" "length (data s) = length (data t)"
    using assms by auto
  then show "tensor_copy grad_enabled t s = Inr (written grad_enabled t (requires_grad s) (data s))"
    by (rule tensor_copy_same_shape)
qed

lemma soft_update_prefix:
  assumes "\<forall>i<min (length source) (length target).
             length (data (source ! i)) = length (data (target ! i)) \<and>
             \<not> in_place_refused grad_enabled (target ! i)"
  shows "soft_update grad_enabled source target tau =
           (map2 (\<lambda>t s. written grad_enabled t (grad_enabled \<and> (requires_grad t \<or> requires_grad s))
                           (blend tau (data t) (data s))) target source
              @ drop (length source) target, None)"
  unfolding soft_update_def
proof (rule for_zip_success)
  fix t s
  assume "(t, s) \<in> set (zip target source)"
  then obtain i where "i < min (length source) (length target)" "target ! i = t" "source ! i = s"
    by (rule zip_nth_pair)
  then have "\<not> in_place_refused grad_enabled t" "length (data s) = length (data t)"
    using assms by auto
  then show "(case plus_tensor grad_enabled (times_number grad_enabled t (1 - tau))
                 (times_number grad_enabled s tau) of
            Inl e \<Rightarrow> Inl e
          | Inr blended \<Rightarrow> tensor_copy grad_enabled t blended) =
         Inr (written grad_enabled t (grad_enabled \<and> (requires_grad t \<or> requires_grad s))
                (blend tau (data t) (data s)))"
    by (rule soft_body_same_shape)
qed

lemma nth_prefix_update:
  assumes "i < length target"
  shows "(map2 g target source @ drop (length source) target) ! i =
           (if i < length source then g (target ! i) (source ! i) else target ! i)"
proof (cases "i < length source")
  case True
  then show ?thesis using assms by (simp add: nth_append)
next
  case False
  then have "min (length target) (length source) = length source"
    using assms by simp
  then show ?thesis using False assms by (simp add: nth_append)
qed

lemma map2_fst: "length xs = length ys \<Longrightarrow> map2 (\<lambda>t s. t) xs ys = xs"
  by (induction xs ys rule: list_induct2) simp_all

lemma blend_0: "length param = length target_param \<Longrightarrow> blend 0 target_param param = target_param"
  unfolding blend_def by (induction param target_param rule: list_induct2) simp_all

lemma blend_1: "length param = length target_param \<Longrightarrow> blend 1 target_param param = param"
  unfolding blend_def by (induction param target_param rule: list_induct2) simp_all

text \<open>
  With \<open>tau = 1\<close> the body of \<open>soft_update\<close> is the body of \<open>hard_update\<close>, on all
  parameters, whatever the shapes, the flags and the gradient mode.
\<close>

lemma blended_entries_tau_1:
  "(case tadd (smul a (1 - 1)) (smul b 1) of
      Inl e \<Rightarrow> Inl e
    | Inr entries \<Rightarrow> copy_entries a entries) = copy_entries a b"
proof -
  have one: "smul b 1 = b"
    by (simp add: smul_def)
  have zero: "smul a 0 = replicate (length a) 0"
    by (simp add: smul_def map_replicate_const)
  have same: "map2 (+) (replicate n 0) xs = xs" if "length xs = n" for n and xs :: "real list"
    using that by (induction xs arbitrary: n) auto
  show ?thesis
  proof (cases "length a = length b")
    case True
    then show ?thesis
      by (simp add: one zero tadd_def broadcast2_def same copy_entries_def)
  next
    case False
    show ?thesis
    proof (cases "length b = 1")
      case True
      then obtain x where x: "b = [x]"
        by (cases b) auto
      show ?thesis using False x
        by (simp add: smul_def tadd_def broadcast2_def copy_entries_def map_replicate_const)
    next
      case b: False
      show ?thesis using False b
        by (cases "length a = 1") (simp_all add: one zero tadd_def broadcast2_def copy_entries_def)
    qed
  qed
qed

lemma soft_body_tau_1:
  "(case plus_tensor grad_enabled (times_number grad_enabled target_param (1 - 1))
           (times_number grad_enabled param 1) of
      Inl e \<Rightarrow> Inl e
    | Inr blended \<Rightarrow> tensor_copy grad_enabled target_param blended) =
   tensor_copy grad_enabled target_param param"
proof (cases "in_place_refused grad_enabled target_param")
  case True
  then show ?thesis
    using soft_body_refused[OF True, of 1 param] by (simp add: tensor_copy_refused)
next
  case False
  have flags: "written grad_enabled target_param
      (grad_enabled \<and> (grad_enabled \<and> requires_grad target_param \<or> grad_enabled \<and> requires_grad param)) d =
      written grad_enabled target_param (requires_grad param) d" for d
    using False by (auto simp: written_def in_place_refused_def)
  show ?thesis
    using False blended_entries_tau_1[of "data target_param" "data param"]
    by (auto simp: plus_tensor_def times_number_def op_result_def tensor_copy_def flags
        split: sum.splits)
qed

lemma soft_update_1_hard_update:
  "soft_update grad_enabled source target 1 = hard_update grad_enabled source target"
  by (simp add: soft_update_def hard_update_def soft_body_tau_1[simplified])

text \<open>
  C1, as stated, fails: with the gradient mode on, as it is unless the caller has entered
  \<^verbatim>\<open>torch.no_grad()\<close>, \<open>hard_update\<close> on two networks of the same shapes whose parameters
  are as \<^verbatim>\<open>nn.Module\<close> creates them raises \<^verbatim>\<open>RuntimeError\<close> at the first parameter and leaves
  the target as it was, different from the source.
\<close>

theorem hard_update_grad_mode_counterexample:
  "hard_update True net_b net_a = (net_a, Some RuntimeError) \<and>
   map data net_a = [[1, 2], [3]] \<and> map data net_b = [[10, 20], [30]]"
  by (simp add: hard_update_def tensor_copy_def in_place_refused_def net_a_def net_b_def
      parameter_def)

text \<open>
  C1, amended. For two networks whose parameter lists have the same length and, position by
  position, the same shapes, when the gradient mode is off or no parameter of the target
  is a leaf that requires grad, \<open>hard_update\<close> raises nothing and leaves the target with as
  many parameters as before, the entries of each equal to the entries of the parameter of
  the source at the same position.
\<close>

theorem hard_update_copies_source:
  assumes "length source = length target"
    and "\<forall>i<length target. length (data (source ! i)) = length (data (target ! i))"
    and "\<not> grad_enabled \<or> (\<forall>i<length target. \<not> (requires_grad (target ! i) \<and> is_leaf (target ! i)))"
  shows "\<exists>target'. hard_update grad_enabled source target = (target', None) \<and>
           length target' = length target \<and>
           (\<forall>i<length target. data (target' ! i) = data (source ! i))"
proof -
  let ?t = "map2 (\<lambda>t s. written grad_enabled t (requires_grad s) (data s)) target source
              @ drop (length source) target"
  have pre: "\<forall>i<min (length source) (length target).
      length (data (source ! i)) = length (data (target ! i)) \<and>
      \<not> in_place_refused grad_enabled (target ! i)"
    using assms by (auto simp: in_place_refused_def)
  have "hard_update grad_enabled source target = (?t, None)"
    by (rule hard_update_prefix[OF pre])
  moreover have "length ?t = length target"
    by simp
  moreover have "\<forall>i<length target. data (?t ! i) = data (source ! i)"
    using assms(1) by (simp add: nth_prefix_update data_written)
  ultimately show ?thesis by blast
qed

theorem hard_update_copies_source_witness:
  "map data (fst (hard_update False net_b net_a)) = [[10, 20], [30]] \<and>
   snd (hard_update False net_b net_a) = None \<and>
   map data (fst (hard_update True net_b net_frozen)) = [[10, 20], [30]] \<and>
   snd (hard_update True net_b net_frozen) = None"
proof -
  have len: "length net_b = length net_a" "length net_b = length net_frozen"
    by (simp_all add: net_a_def net_b_def net_frozen_def)
  have shapes: "\<forall>i<length net_a. length (data (net_b ! i)) = length (data (net_a ! i))"
    by (simp add: net_a_def net_b_def parameter_def less_Suc_eq)
  have shapes': "\<forall>i<length net_frozen. length (data (net_b ! i)) = length (data (net_frozen ! i))"
    by (simp add: net_frozen_def net_b_def parameter_def frozen_def less_Suc_eq)
  have ok: "\<not> True \<or>
      (\<forall>i<length net_frozen. \<not> (requires_grad (net_frozen ! i) \<and> is_leaf (net_frozen ! i)))"
    by (simp add: net_frozen_def frozen_def less_Suc_eq)
  obtain t where t: "hard_update False net_b net_a = (t, None)" "length t = length net_a"
    "\<forall>i<length net_a. data (t ! i) = data (net_b ! i)"
    using hard_update_copies_source[OF len(1) shapes, of False] by auto
  obtain u where u: "hard_update True net_b net_frozen = (u, None)" "length u = length net_frozen"
    "\<forall>i<length net_frozen. data (u ! i) = data (net_b ! i)"
    using hard_update_copies_source[OF len(2) shapes' ok] by auto
  have "map data t = [[10, 20], [30]]"
    using t(2,3) by (simp add: list_eq_iff_nth_eq net_a_def net_b_def parameter_def less_Suc_eq)
  moreover have "map data u = [[10, 20], [30]]"
    using u(2,3)
    by (simp add: list_eq_iff_nth_eq net_frozen_def net_b_def parameter_def less_Suc_eq)
  ultimately show ?thesis using t(1) u(1) by simp
qed

text \<open>
  C2. For two networks with positionally matched parameters (same number of parameters,
  same shape at every position) and either gradient mode: after \<open>soft_update\<close> with
  \<open>tau = 0\<close> the entries of every parameter of the target are as they were, whether the call
  raises or not, and with the gradient mode off the target is the same in every respect and
  nothing is raised; the call raises nothing exactly when no parameter of the target
  refuses the in-place write; \<open>soft_update\<close> with \<open>tau = 1\<close> leaves the target, and raises,
  exactly as \<open>hard_update\<close> does.
\<close>

theorem soft_update_tau_0_1:
  assumes "length source = length target"
    and "\<forall>i<length target. length (data (source ! i)) = length (data (target ! i))"
  shows "map data (fst (soft_update grad_enabled source target 0)) = map data target \<and>
         (\<not> grad_enabled \<longrightarrow> soft_update grad_enabled source target 0 = (target, None)) \<and>
         (snd (soft_update grad_enabled source target 0) = None \<longleftrightarrow>
            (\<forall>i<length target. \<not> in_place_refused grad_enabled (target ! i))) \<and>
         soft_update grad_enabled source target 1 = hard_update grad_enabled source target"
proof -
  let ?body = "\<lambda>target_param param.
      case plus_tensor grad_enabled (times_number grad_enabled target_param 1)
             (times_number grad_enabled param 0) of
        Inl e \<Rightarrow> Inl e
      | Inr blended \<Rightarrow> tensor_copy grad_enabled target_param blended"
  have shape: "length (data s) = length (data t)" if "(t, s) \<in> set (zip target source)" for t s
    using that assms by (auto simp: in_set_zip)
  have body: "?body t s =
      (if in_place_refused grad_enabled t then Inl RuntimeError
       else Inr (written grad_enabled t (grad_enabled \<and> (requires_grad t \<or> requires_grad s))
                   (data t)))"
    if "(t, s) \<in> set (zip target source)" for t s
  proof (cases "in_place_refused grad_enabled t")
    case True
    then show ?thesis
      using soft_body_refused[of grad_enabled t 0 s] by simp
  next
    case False
    then show ?thesis
      using soft_body_same_shape[OF False shape[OF that], of 0] blend_0[OF shape[OF that]]
      by simp
  qed
  have keeps: "map data (fst (for_zip ?body target source)) = map data target"
  proof (rule for_zip_keeps)
    fix t s t'
    assume "(t, s) \<in> set (zip target source)" and "?body t s = Inr t'"
    then show "data t' = data t"
      using body[of t s] by (auto simp: data_written split: if_splits)
  qed
  have quiet: "snd (for_zip ?body target source) = None \<longleftrightarrow>
      (\<forall>i<length target. \<not> in_place_refused grad_enabled (target ! i))"
  proof -
    have "snd (for_zip ?body target source) = None \<longleftrightarrow>
        (\<forall>(t, s)\<in>set (zip target source). \<not> in_place_refused grad_enabled t)"
      unfolding for_zip_no_exception by (auto simp: body)
    also have "\<dots> \<longleftrightarrow> (\<forall>i<length target. \<not> in_place_refused grad_enabled (target ! i))"
    proof
      assume a: "\<forall>(t, s)\<in>set (zip target source). \<not> in_place_refused grad_enabled t"
      show "\<forall>i<length target. \<not> in_place_refused grad_enabled (target ! i)"
      proof (intro allI impI)
        fix i
        assume "i < length target"
        then have "(target ! i, source ! i) \<in> set (zip target source)"
          using assms(1) by (auto simp: in_set_zip)
        then show "\<not> in_place_refused grad_enabled (target ! i)"
          using a by blast
      qed
    next
      assume "\<forall>i<length target. \<not> in_place_refused grad_enabled (target ! i)"
      then show "\<forall>(t, s)\<in>set (zip target source). \<not> in_place_refused grad_enabled t"
        by (auto simp: in_set_zip)
    qed
    finally show ?thesis .
  qed
  have off: "for_zip ?body target source = (target, None)" if "\<not> grad_enabled"
  proof -
    have "for_zip ?body target source = (map2 (\<lambda>t s. t) target source @ drop (length source) target, None)"
    proof (rule for_zip_success)
      fix t s
      assume pair: "(t, s) \<in> set (zip target source)"
      have "\<not> in_place_refused grad_enabled t"
        using that by (simp add: in_place_refused_def)
      then have "?body t s =
          Inr (written grad_enabled t (grad_enabled \<and> (requires_grad t \<or> requires_grad s)) (data t))"
        using body[OF pair] by simp
      also have "written grad_enabled t (grad_enabled \<and> (requires_grad t \<or> requires_grad s)) (data t) = t"
        using that by (simp add: written_def)
      finally show "?body t s = Inr t" .
    qed
    moreover have "map2 (\<lambda>t s. t) target source = target"
      using assms(1) by (simp add: map2_fst)
    ultimately show ?thesis using assms(1) by simp
  qed
  have s0: "soft_update grad_enabled source target 0 = for_zip ?body target source"
    by (simp add: soft_update_def)
  show ?thesis
    unfolding s0
  proof (intro conjI impI)
    show "map data (fst (for_zip ?body target source)) = map data target"
      by (rule keeps)
    show "for_zip ?body target source = (target, None)" if "\<not> grad_enabled"
      using off[OF that] .
    show "snd (for_zip ?body target source) = None \<longleftrightarrow>
        (\<forall>i<length target. \<not> in_place_refused grad_enabled (target ! i))"
      by (rule quiet)
    show "soft_update grad_enabled source target 1 = hard_update grad_enabled source target"
      by (rule soft_update_1_hard_update)
  qed
qed

theorem soft_update_tau_0_1_witness:
  "map data (fst (soft_update True net_b net_a 0)) = [[1, 2], [3]] \<and>
   soft_update False net_b net_a 0 = (net_a, None) \<and>
   snd (soft_update True net_b net_a 0) \<noteq> None \<and>
   snd (soft_update True net_b net_frozen 0) = None \<and>
   soft_update False net_b net_a 1 = hard_update False net_b net_a"
proof -
  have len: "length net_b = length net_a" "length net_b = length net_frozen"
    by (simp_all add: net_a_def net_b_def net_frozen_def)
  have shapes: "\<forall>i<length net_a. length (data (net_b ! i)) = length (data (net_a ! i))"
    by (simp add: net_a_def net_b_def parameter_def less_Suc_eq)
  have shapes': "\<forall>i<length net_frozen. length (data (net_b ! i)) = length (data (net_frozen ! i))"
    by (simp add: net_frozen_def net_b_def parameter_def frozen_def less_Suc_eq)
  note on = soft_update_tau_0_1[OF len(1) shapes, of True]
  note off = soft_update_tau_0_1[OF len(1) shapes, of False]
  note fr = soft_update_tau_0_1[OF len(2) shapes', of True]
  have "map data (fst (soft_update True net_b net_a 0)) = [[1, 2], [3]]"
    using on by (simp add: net_a_def parameter_def)
  moreover have "soft_update False net_b net_a 0 = (net_a, None)"
    using off by simp
  moreover have "snd (soft_update True net_b net_a 0) \<noteq> None"
  proof -
    have "0 < length net_a" "in_place_refused True (net_a ! 0)"
      by (simp_all add: in_place_refused_def net_a_def parameter_def)
    then have "\<not> (\<forall>i<length net_a. \<not> in_place_refused True (net_a ! i))"
      by blast
    then show ?thesis using on by simp
  qed
  moreover have "snd (soft_update True net_b net_frozen 0) = None"
    using fr by (simp add: in_place_refused_def net_frozen_def frozen_def less_Suc_eq)
  moreover have "soft_update False net_b net_a 1 = hard_update False net_b net_a"
    using off by simp
  ultimately show ?thesis by simp
qed

text \<open>
  C9, as stated, fails: with the gradient mode on and parameters as \<^verbatim>\<open>nn.Module\<close> creates
  them, both updates raise \<^verbatim>\<open>RuntimeError\<close> on networks with two and three parameters and
  update nothing; and with the gradient mode off \<open>hard_update\<close> raises when the first pair
  has shapes 3 and 2.
\<close>

theorem update_paired_prefix_counterexample:
  "length net_a \<noteq> length net_c \<and>
   hard_update True net_a net_c = (net_c, Some RuntimeError) \<and>
   soft_update True net_a net_c (1 / 2) = (net_c, Some RuntimeError) \<and>
   hard_update False [parameter [1, 2, 3 :: real]] [parameter [1, 2], parameter [5]] =
     ([parameter [1, 2], parameter [5]], Some RuntimeError)"
  by (simp add: hard_update_def soft_update_def tensor_copy_def in_place_refused_def
      plus_tensor_def times_number_def op_result_def tadd_def broadcast2_def smul_def
      copy_entries_def net_a_def net_c_def parameter_def)

text \<open>
  C9, amended. Whatever the two parameter counts are (in particular when they differ), when
  the tensors paired by \<open>zip\<close> have the same shapes, and the gradient mode is off or no
  paired parameter of the target is a leaf that requires grad, \<open>hard_update\<close> and
  \<open>soft_update\<close> raise nothing and return a target of unchanged length in which the
  positions below the length of the source hold the copied (respectively blended) entries
  and every later position holds the target's parameter as it was.
\<close>

theorem update_paired_prefix_only:
  assumes "\<forall>i<min (length source) (length target).
             length (data (source ! i)) = length (data (target ! i))"
    and "\<not> grad_enabled \<or>
         (\<forall>i<min (length source) (length target).
            \<not> (requires_grad (target ! i) \<and> is_leaf (target ! i)))"
  shows "\<exists>th ts. hard_update grad_enabled source target = (th, None) \<and>
           soft_update grad_enabled source target tau = (ts, None) \<and>
           length th = length target \<and> length ts = length target \<and>
           (\<forall>i<length target.
              if i < length source then data (th ! i) = data (source ! i)
              else th ! i = target ! i) \<and>
           (\<forall>i<length target.
              if i < length source
              then data (ts ! i) = blend tau (data (target ! i)) (data (source ! i))
              else ts ! i = target ! i)"
proof -
  let ?th = "map2 (\<lambda>t s. written grad_enabled t (requires_grad s) (data s)) target source
               @ drop (length source) target"
  let ?ts = "map2 (\<lambda>t s. written grad_enabled t
                            (grad_enabled \<and> (requires_grad t \<or> requires_grad s))
                            (blend tau (data t) (data s))) target source
               @ drop (length source) target"
  have pre: "\<forall>i<min (length source) (length target).
      length (data (source ! i)) = length (data (target ! i)) \<and>
      \<not> in_place_refused grad_enabled (target ! i)"
    using assms by (auto simp: in_place_refused_def)
  have "hard_update grad_enabled source target = (?th, None)"
    by (rule hard_update_prefix[OF pre])
  moreover have "soft_update grad_enabled source target tau = (?ts, None)"
    by (rule soft_update_prefix[OF pre])
  moreover have "length ?th = length target" "length ?ts = length target"
    by simp_all
  moreover have "\<forall>i<length target.
      if i < length source then data (?th ! i) = data (source ! i) else ?th ! i = target ! i"
    by (simp add: nth_prefix_update data_written)
  moreover have "\<forall>i<length target.
      if i < length source
      then data (?ts ! i) = blend tau (data (target ! i)) (data (source ! i))
      else ?ts ! i = target ! i"
    by (simp add: nth_prefix_update data_written)
  ultimately show ?thesis by blast
qed

theorem update_paired_prefix_only_witness:
  "length net_a \<noteq> length net_c \<and>
   snd (hard_update False net_a net_c) = None \<and>
   map data (fst (hard_update False net_a net_c)) = [[1, 2], [3], [8, 9, 10]] \<and>
   snd (soft_update False net_a net_c (1 / 2)) = None \<and>
   map data (fst (soft_update False net_a net_c (1 / 2))) = [[3, 4], [5], [8, 9, 10]] \<and>
   map data (fst (hard_update False net_c net_a)) = [[5, 6], [7]] \<and>
   map data (fst (soft_update False net_c net_a (1 / 2))) = [[3, 4], [5]]"
proof -
  have shapes: "\<forall>i<min (length net_a) (length net_c).
      length (data (net_a ! i)) = length (data (net_c ! i))"
    by (simp add: net_a_def net_c_def parameter_def less_Suc_eq)
  have shapes': "\<forall>i<min (length net_c) (length net_a).
      length (data (net_c ! i)) = length (data (net_a ! i))"
    by (simp add: net_a_def net_c_def parameter_def less_Suc_eq)
  obtain th ts where r: "hard_update False net_a net_c = (th, None)"
    "soft_update False net_a net_c (1 / 2) = (ts, None)"
    "length th = length net_c" "length ts = length net_c"
    "\<forall>i<length net_c. if i < length net_a then data (th ! i) = data (net_a ! i)
       else th ! i = net_c ! i"
    "\<forall>i<length net_c. if i < length net_a
       then data (ts ! i) = blend (1 / 2) (data (net_c ! i)) (data (net_a ! i))
       else ts ! i = net_c ! i"
    using update_paired_prefix_only[OF shapes, of False "1 / 2"] by auto
  obtain uh us where u: "hard_update False net_c net_a = (uh, None)"
    "soft_update False net_c net_a (1 / 2) = (us, None)"
    "length uh = length net_a" "length us = length net_a"
    "\<forall>i<length net_a. if i < length net_c then data (uh ! i) = data (net_c ! i)
       else uh ! i = net_a ! i"
    "\<forall>i<length net_a. if i < length net_c
       then data (us ! i) = blend (1 / 2) (data (net_a ! i)) (data (net_c ! i))
       else us ! i = net_a ! i"
    using update_paired_prefix_only[OF shapes', of False "1 / 2"] by auto
  have th: "map data th = [[1, 2], [3], [8, 9, 10]]"
    using r(3,5)
    by (simp add: list_eq_iff_nth_eq net_a_def net_c_def parameter_def less_Suc_eq)
  have ts: "map data ts = [[3, 4], [5], [8, 9, 10]]"
    using r(4,6)
    by (simp add: list_eq_iff_nth_eq net_a_def net_c_def parameter_def less_Suc_eq blend_def)
  have uh: "map data uh = [[5, 6], [7]]"
    using u(3,5)
    by (simp add: list_eq_iff_nth_eq net_a_def net_c_def parameter_def less_Suc_eq)
  have us: "map data us = [[3, 4], [5]]"
    using u(4,6)
    by (simp add: list_eq_iff_nth_eq net_a_def net_c_def parameter_def less_Suc_eq blend_def)
  show ?thesis
    using r(1,2) u(1,2) th ts uh us by (simp add: net_a_def net_c_def)
qed

section \<open>Properties of the attribute helpers\<close>

subsection \<open>Splitting and joining strings\<close>

lemma str_split_nonempty: "str_split sep s \<noteq> []"
  by (induction s) (auto split: list.splits)

lemma str_split_no_sep: "sep \<notin> set s \<Longrightarrow> str_split sep s = [s]"
  by (induction s) auto

lemma str_split_append: "str_split sep (a @ sep # b) = str_split sep a @ str_split sep b"
proof (induction a)
  case Nil
  show ?case by simp
next
  case (Cons c cs)
  obtain w ws where w: "str_split sep cs = w # ws"
    using str_split_nonempty[of sep cs] by (cases "str_split sep cs") auto
  show ?case using Cons w by simp
qed

lemma str_join_snoc: "xs \<noteq> [] \<Longrightarrow> str_join sep (xs @ [y]) = str_join sep xs @ sep # y"
  by (induction sep xs rule: str_join.induct) auto

lemma str_split_join:
  assumes "xs \<noteq> []" and "\<forall>x\<in>set xs. sep \<notin> set x"
  shows "str_split sep (str_join sep xs) = xs"
  using assms
proof (induction sep xs rule: str_join.induct)
  case (1 sep)
  then show ?case by simp
next
  case (2 sep x)
  then show ?case by (simp add: str_split_no_sep)
next
  case (3 sep x y ys)
  then show ?case by (simp add: str_split_append str_split_no_sep)
qed

lemma str_rpartition_snoc:
  assumes "sep \<notin> set y"
  shows "str_rpartition sep (p @ sep # y) = (p, [sep], y)"
proof -
  have tw: "takeWhile (\<lambda>c. c \<noteq> sep) (rev y @ sep # rev p) = rev y"
    using assms by (auto simp: takeWhile_tail)
  have dw: "dropWhile (\<lambda>c. c \<noteq> sep) (rev y @ sep # rev p) = sep # rev p"
    using assms by (auto simp: dropWhile_append3)
  show ?thesis by (simp add: str_rpartition_def tw dw)
qed

lemma str_rpartition_sep:
  assumes "sep \<in> set s" and "str_rpartition sep s = (pre, d, post)"
  shows "s = pre @ sep # post \<and> sep \<notin> set post"
proof -
  obtain p y where py: "s = p @ sep # y" "sep \<notin> set y"
    using assms(1) by (meson split_list_last)
  then show ?thesis using assms(2) by (simp add: str_rpartition_snoc)
qed

lemma str_rpartition_no_sep:
  "sep \<notin> set s \<Longrightarrow> str_rpartition sep s = ([], [], s)"
  by (simp add: str_rpartition_def)

lemma str_join_eq_Nil: "str_join sep xs = [] \<longleftrightarrow> xs = [] \<or> xs = [[]]"
  by (induction sep xs rule: str_join.induct) auto

lemma str_rpartition_join:
  assumes "segs \<noteq> []" and "sep \<notin> set post"
  shows "str_rpartition sep (str_join sep (segs @ [post])) = (str_join sep segs, [sep], post)"
  using assms by (simp add: str_join_snoc str_rpartition_snoc)

subsection \<open>Resolving a path on the heap\<close>

lemma reduce_append:
  "reduce f acc (xs @ ys) = (case reduce f acc xs of Inl e \<Rightarrow> Inl e | Inr a \<Rightarrow> reduce f a ys)"
  by (induction xs arbitrary: acc) (auto split: sum.splits)

lemma reads_names: "(p, n) \<in> set (reads h obj names) \<Longrightarrow> n \<in> set names"
  by (induction names arbitrary: obj) (auto split: option.splits)

lemma getattr_setattr_other:
  "(p, a) \<noteq> (obj, n) \<Longrightarrow> getattr (setattr h p a v) obj n args = getattr h obj n args"
  by (auto simp: getattr_def setattr_def split: list.split)

lemma getattr_setattr_same: "getattr (setattr h p a v) p a [] = Inr v"
  by (simp add: getattr_def setattr_def)

lemma reduce_setattr_frame:
  assumes "(p, a) \<notin> set (reads h obj names)"
  shows "reduce (\<lambda>obj attr. getattr (setattr h p a v) obj attr []) obj names =
         reduce (\<lambda>obj attr. getattr h obj attr []) obj names"
  using assms
proof (induction names arbitrary: obj)
  case Nil
  show ?case by simp
next
  case (Cons n names)
  have ne: "(p, a) \<noteq> (obj, n)" using Cons.prems by auto
  show ?case
  proof (cases "h obj n")
    case None
    then show ?thesis using ne by (simp add: getattr_setattr_other) (simp add: getattr_def)
  next
    case (Some x)
    then have "(p, a) \<notin> set (reads h x names)" using Cons.prems by simp
    then show ?thesis using Some ne Cons.IH[of x]
      by (simp add: getattr_setattr_other) (simp add: getattr_def)
  qed
qed

lemma eval_foldl:
  "eval h (foldl Attribute (Obj obj) names) = reduce (\<lambda>obj attr. getattr h obj attr []) obj names"
  by (induction names rule: rev_induct) (auto simp: reduce_append split: sum.splits)

text \<open>
  Set then get, for any path: the value assigned is read back when the path before the last
  dot is not empty or there is no dot, and the attribute that receives the assignment is
  not one that resolving that prefix reads.
\<close>

lemma rsetattr_rgetattr_general:
  assumes part: "str_rpartition CHR ''.'' attr = (pre, d, post)"
    and pre: "pre \<noteq> [] \<or> CHR ''.'' \<notin> set attr"
    and set: "rsetattr h obj attr v = Inr h'"
    and frame: "\<forall>parent. pre \<noteq> [] \<and> rgetattr h obj pre [] = Inr parent \<longrightarrow>
                  (parent, post) \<notin> set (reads h obj (str_split CHR ''.'' pre))"
  shows "rgetattr h' obj attr [] = Inr v"
proof (cases "CHR ''.'' \<in> set attr")
  case False
  then have "pre = []" "post = attr"
    using part by (simp_all add: str_rpartition_no_sep)
  then have "h' = setattr h obj attr v"
    using set part by (simp add: rsetattr_def)
  then show ?thesis
    using False by (simp add: rgetattr_def str_split_no_sep getattr_setattr_same)
next
  case True
  then have ne: "pre \<noteq> []" using pre by simp
  have attr: "attr = pre @ CHR ''.'' # post" and post: "CHR ''.'' \<notin> set post"
    using str_rpartition_sep[OF True part] by simp_all
  obtain parent where parent: "rgetattr h obj pre [] = Inr parent"
    and h': "h' = setattr h parent post v"
    using set part ne by (auto simp: rsetattr_def split: sum.splits)
  have fr: "(parent, post) \<notin> set (reads h obj (str_split CHR ''.'' pre))"
    using frame parent ne by simp
  have "reduce (\<lambda>obj attr. getattr h' obj attr []) obj (str_split CHR ''.'' pre) = Inr parent"
    using reduce_setattr_frame[OF fr] parent h' by (simp add: rgetattr_def)
  then show ?thesis
    using post h'
    by (simp add: rgetattr_def attr str_split_append str_split_no_sep reduce_append
        getattr_setattr_same)
qed

text \<open>
  On a path given by its segments, none of which holds a dot, \<open>rgetattr\<close> is the nested
  attribute access, and the value that \<open>rsetattr\<close> assigns is read back when the last name
  is none of the earlier names.
\<close>

lemma rgetattr_join:
  assumes "names \<noteq> []" and "\<forall>n\<in>set names. CHR ''.'' \<notin> set n"
  shows "rgetattr h obj (str_join CHR ''.'' names) [] = eval h (foldl Attribute (Obj obj) names)"
  using assms by (simp add: rgetattr_def str_split_join eval_foldl)

lemma rsetattr_rgetattr_distinct_last:
  assumes dotfree: "\<forall>n\<in>set (segs @ [post]). CHR ''.'' \<notin> set n"
    and last: "post \<notin> set segs"
    and pre: "segs \<noteq> [[]]"
    and set: "rsetattr h obj (str_join CHR ''.'' (segs @ [post])) v = Inr h'"
  shows "rgetattr h' obj (str_join CHR ''.'' (segs @ [post])) [] = Inr v"
proof (cases "segs = []")
  case True
  have part: "str_rpartition CHR ''.'' post = ([], [], post)"
    using dotfree by (simp add: str_rpartition_no_sep)
  show ?thesis
    using rsetattr_rgetattr_general[OF part _ _ _, of h obj v h'] set dotfree True
    by simp
next
  case False
  let ?attr = "str_join CHR ''.'' (segs @ [post])"
  have part: "str_rpartition CHR ''.'' ?attr = (str_join CHR ''.'' segs, ''.'', post)"
    using False dotfree by (simp add: str_rpartition_join)
  have ne: "str_join CHR ''.'' segs \<noteq> []"
    using False pre by (simp add: str_join_eq_Nil)
  have split: "str_split CHR ''.'' (str_join CHR ''.'' segs) = segs"
    using False dotfree by (simp add: str_split_join)
  have "\<forall>parent. (parent, post) \<notin> set (reads h obj segs)"
    using last reads_names by blast
  then show ?thesis
    using rsetattr_rgetattr_general[OF part _ set] ne split by simp
qed

text \<open>
  The condition on the reads of the prefix is needed: on an object whose attribute \<open>a\<close> is
  the object itself, assigning on the path \<^verbatim>\<open>"a.a"\<close> replaces the attribute that the path
  goes through.
\<close>

lemma rsetattr_rgetattr_overwritten_prefix:
  "rgetattr heap_cyclic 0 ''a.a'' [] = Inr 0 \<and>
   rsetattr heap_cyclic 0 ''a.a'' 5 = Inr (setattr heap_cyclic 0 ''a'' 5) \<and>
   rgetattr (setattr heap_cyclic 0 ''a'' 5) 0 ''a.a'' [] = Inl AttributeError"
  by (simp add: rgetattr_def rsetattr_def str_rpartition_def setattr_def heap_cyclic_def getattr_def)

subsection \<open>The default of rgetattr and the errors of rsetattr\<close>

lemma reduce_default_no_error:
  "\<exists>r. reduce (\<lambda>obj attr. getattr h obj attr [d]) obj names = Inr r"
  by (induction names arbitrary: obj) (auto simp: getattr_def split: option.splits)

lemma reduce_default_agrees:
  "reduce (\<lambda>obj attr. getattr h obj attr []) obj names = Inr r \<Longrightarrow>
   reduce (\<lambda>obj attr. getattr h obj attr [d]) obj names = Inr r"
  by (induction names arbitrary: obj) (auto simp: getattr_def split: option.splits)

lemma reduce_default_stays:
  "\<forall>m\<in>set names. h d m = None \<Longrightarrow>
   reduce (\<lambda>obj attr. getattr h obj attr [d]) d names = Inr d"
  by (induction names) (auto simp: getattr_def)

lemma reduce_no_default_error:
  "reduce (\<lambda>obj attr. getattr h obj attr []) obj names = Inl e \<Longrightarrow> e = AttributeError"
  by (induction names arbitrary: obj) (auto simp: getattr_def split: option.splits)

lemma reduce_default_from_failure:
  assumes "reduce (\<lambda>obj attr. getattr h obj attr []) obj pfx = Inr r" and "h r n = None"
  shows "reduce (\<lambda>obj attr. getattr h obj attr [d]) obj (pfx @ n # rest) =
         reduce (\<lambda>obj attr. getattr h obj attr [d]) d rest"
  using reduce_default_agrees[OF assms(1), of d] assms(2)
  by (simp add: reduce_append getattr_def)

lemma rsetattr_prefix_error:
  assumes "str_rpartition CHR ''.'' attr = (pre, d, post)" and "pre \<noteq> []"
    and "rgetattr h obj pre [] = Inl e"
  shows "rsetattr h obj attr v = Inl e"
  using assms by (simp add: rsetattr_def)

text \<open>
  C6. For every heap and every object \<open>obj\<close> on which \<^verbatim>\<open>obj.a.b.c\<close> evaluates to a value,
  \<open>rgetattr\<close> on the path \<^verbatim>\<open>"a.b.c"\<close> returns that value, and \<open>rsetattr\<close> of any \<open>v\<close> on the same
  path succeeds and leaves a heap in which \<open>rgetattr\<close> on the path returns \<open>v\<close>.
\<close>

theorem rgetattr_rsetattr_a_b_c:
  assumes "eval h (Attribute (Attribute (Attribute (Obj obj) ''a'') ''b'') ''c'') = Inr x"
  shows "rgetattr h obj ''a.b.c'' [] = Inr x \<and>
         (\<exists>h'. rsetattr h obj ''a.b.c'' v = Inr h' \<and> rgetattr h' obj ''a.b.c'' [] = Inr v)"
proof -
  have chain: "eval h (Attribute (Attribute (Attribute (Obj obj) ''a'') ''b'') ''c'') =
      reduce (\<lambda>obj attr. getattr h obj attr []) obj [''a'', ''b'', ''c'']"
    using eval_foldl[of h obj "[''a'', ''b'', ''c'']"] by simp
  have get: "rgetattr h obj ''a.b.c'' [] = Inr x"
    using assms chain by (simp add: rgetattr_def)
  have part: "str_rpartition CHR ''.'' ''a.b.c'' = (''a.b'', ''.'', ''c'')"
    by (simp add: str_rpartition_def)
  obtain parent where parent: "rgetattr h obj ''a.b'' [] = Inr parent"
    using get by (auto simp: rgetattr_def split: sum.splits)
  then have set: "rsetattr h obj ''a.b.c'' v = Inr (setattr h parent ''c'' v)"
    by (simp add: rsetattr_def part)
  have "\<forall>p. (p, ''c'') \<notin> set (reads h obj (str_split CHR ''.'' ''a.b''))"
    using reads_names[of _ "''c''" h obj "[''a'', ''b'']"] by auto
  then have "rgetattr (setattr h parent ''c'' v) obj ''a.b.c'' [] = Inr v"
    using rsetattr_rgetattr_general[OF part _ set] by simp
  then show ?thesis using get set by simp
qed

theorem rgetattr_rsetattr_a_b_c_witness:
  "eval heap_tree (Attribute (Attribute (Attribute (Obj 0) ''a'') ''b'') ''c'') = Inr 3 \<and>
   rgetattr heap_tree 0 ''a.b.c'' [] = Inr 3 \<and>
   (\<exists>h'. rsetattr heap_tree 0 ''a.b.c'' 7 = Inr h' \<and> rgetattr h' 0 ''a.b.c'' [] = Inr 7)"
proof -
  have e: "eval heap_tree (Attribute (Attribute (Attribute (Obj 0) ''a'') ''b'') ''c'') = Inr 3"
    by (simp add: heap_tree_def getattr_def)
  show ?thesis using rgetattr_rsetattr_a_b_c[OF e, of 7] e by simp
qed

text \<open>
  C7, as stated, fails: in \<open>heap_default\<close> the first segment of \<^verbatim>\<open>"a.b"\<close> does not resolve on
  object 0, and \<open>rgetattr\<close> with the default object 1 returns object 2, the attribute \<open>b\<close> of
  the default, not the default.
\<close>

theorem rgetattr_default_counterexample:
  "rgetattr heap_default 0 ''a.b'' [] = Inl AttributeError \<and>
   rgetattr heap_default 0 ''a.b'' [1] = Inr 2 \<and>
   rgetattr heap_default 0 ''a.b'' [1] \<noteq> Inr 1"
  by (simp add: rgetattr_def heap_default_def getattr_def)

text \<open>
  C7, amended. With one default, \<open>rgetattr\<close> raises nothing. When a segment \<open>n\<close> is the first
  that fails to resolve, the result is what resolving the segments after \<open>n\<close> yields from the
  default, with the same default; it is the default itself when the default has none of the
  attributes that those segments name, so always when \<open>n\<close> is the last segment. \<open>rsetattr\<close>
  raises \<^verbatim>\<open>AttributeError\<close> when the part of the path before its last dot is not empty and
  fails to resolve.
\<close>

theorem rgetattr_default_rsetattr_error:
  "(\<exists>r. rgetattr h obj attr [d] = Inr r) \<and>
   (\<forall>pfx n rest r.
      str_split CHR ''.'' attr = pfx @ n # rest \<and>
      reduce (\<lambda>obj attr. getattr h obj attr []) obj pfx = Inr r \<and> h r n = None \<longrightarrow>
      rgetattr h obj attr [d] = reduce (\<lambda>obj attr. getattr h obj attr [d]) d rest \<and>
      ((\<forall>m\<in>set rest. h d m = None) \<longrightarrow> rgetattr h obj attr [d] = Inr d)) \<and>
   (\<forall>pre dot post.
      str_rpartition CHR ''.'' attr = (pre, dot, post) \<and> pre \<noteq> [] \<and>
      rgetattr h obj pre [] = Inl AttributeError \<longrightarrow>
      rsetattr h obj attr v = Inl AttributeError)"
proof (intro conjI allI impI)
  show "\<exists>r. rgetattr h obj attr [d] = Inr r"
    unfolding rgetattr_def by (rule reduce_default_no_error)
next
  fix pfx n rest r
  assume a: "str_split CHR ''.'' attr = pfx @ n # rest \<and>
      reduce (\<lambda>obj attr. getattr h obj attr []) obj pfx = Inr r \<and> h r n = None"
  then show eq: "rgetattr h obj attr [d] = reduce (\<lambda>obj attr. getattr h obj attr [d]) d rest"
    by (simp add: rgetattr_def reduce_default_from_failure)
  assume "\<forall>m\<in>set rest. h d m = None"
  then show "rgetattr h obj attr [d] = Inr d"
    using eq by (simp add: reduce_default_stays)
next
  fix pre dot post
  assume "str_rpartition CHR ''.'' attr = (pre, dot, post) \<and> pre \<noteq> [] \<and>
      rgetattr h obj pre [] = Inl AttributeError"
  then show "rsetattr h obj attr v = Inl AttributeError"
    by (simp add: rsetattr_prefix_error)
qed

theorem rgetattr_default_rsetattr_error_witness:
  "rgetattr heap_tree 0 ''a.x.c'' [] = Inl AttributeError \<and>
   rgetattr heap_tree 0 ''a.x.c'' [9] = Inr 9 \<and>
   rsetattr heap_tree 0 ''a.x.c'' 5 = Inl AttributeError"
proof -
  note t = rgetattr_default_rsetattr_error[of heap_tree 0 "''a.x.c''" 9 5]
  have split: "str_split CHR ''.'' ''a.x.c'' = [''a''] @ ''x'' # [''c'']"
    by simp
  have pfx: "reduce (\<lambda>obj attr. getattr heap_tree obj attr []) 0 [''a''] = Inr 1"
    by (simp add: heap_tree_def getattr_def)
  have miss: "heap_tree 1 ''x'' = None"
    by (simp add: heap_tree_def)
  have rest: "\<forall>m\<in>set [''c'']. heap_tree 9 m = None"
    by (simp add: heap_tree_def)
  have g: "rgetattr heap_tree 0 ''a.x.c'' [9] = Inr 9"
    using t split pfx miss rest by blast
  have part: "str_rpartition CHR ''.'' ''a.x.c'' = (''a.x'', ''.'', ''c'')"
    by (simp add: str_rpartition_def)
  have pre: "rgetattr heap_tree 0 ''a.x'' [] = Inl AttributeError"
    by (simp add: rgetattr_def heap_tree_def getattr_def)
  have s: "rsetattr heap_tree 0 ''a.x.c'' 5 = Inl AttributeError"
    using t part pre by blast
  have "rgetattr heap_tree 0 ''a.x.c'' [] = Inl AttributeError"
    by (simp add: rgetattr_def heap_tree_def getattr_def)
  then show ?thesis using g s by simp
qed

text \<open>
  A path that starts with its only dot has an empty part before the dot, which \<open>rsetattr\<close>
  takes for a path without dot: it assigns on \<open>obj\<close> itself and never reads the attribute
  with the empty name.
\<close>

lemma rsetattr_empty_prefix:
  "rgetattr heap_default 0 '''' [] = Inl AttributeError \<and>
   rsetattr heap_default 0 ''.x'' 5 = Inr (setattr heap_default 0 ''x'' 5)"
  by (simp add: rgetattr_def rsetattr_def str_rpartition_def heap_default_def getattr_def)

section \<open>Properties of the reparameterisation\<close>

lemma reparameterize_same_shape:
  assumes "length mu = length logvar"
  shows "reparameterize normal mu logvar =
           Inr (map2 (+) (map2 (*) (map normal [0..<length logvar])
                                   (map exp (clamp (map (\<lambda>x. 0.5 * x) logvar) (- 4) 15))) mu)"
  using assms
  by (simp add: reparameterize_def Let_def tmul_def broadcast2_def tensor_add_def clamp_def)

text \<open>
  C3. For \<open>mu\<close> and \<open>logvar\<close> of one shape and any draw, \<open>reparameterize\<close> returns a tensor \<open>z\<close>
  of that shape whose entry \<open>i\<close> is \<open>eps * std + mu\<close> at \<open>i\<close>, where \<open>eps\<close> is the draw,
  \<open>std = exp logstd\<close> and \<open>logstd\<close> is \<open>0.5 * logvar\<close> clamped to the interval from -4 to 15;
  when every drawn entry is zero, \<open>z\<close> is \<open>mu\<close>.
\<close>

theorem reparameterize_sample:
  assumes "length mu = length logvar"
  shows "\<exists>z. reparameterize normal mu logvar = Inr z \<and> length z = length logvar \<and>
           (\<forall>i<length logvar.
              z ! i = normal i * exp (min (max (0.5 * logvar ! i) (- 4)) 15) + mu ! i) \<and>
           ((\<forall>i<length logvar. normal i = 0) \<longrightarrow> z = mu)"
proof -
  let ?z = "map2 (+) (map2 (*) (map normal [0..<length logvar])
                               (map exp (clamp (map (\<lambda>x. 0.5 * x) logvar) (- 4) 15))) mu"
  have r: "reparameterize normal mu logvar = Inr ?z"
    by (rule reparameterize_same_shape[OF assms])
  have len: "length ?z = length logvar"
    using assms by (simp add: clamp_def)
  have nth: "\<forall>i<length logvar.
      ?z ! i = normal i * exp (min (max (0.5 * logvar ! i) (- 4)) 15) + mu ! i"
    using assms by (simp add: clamp_def)
  have zero: "(\<forall>i<length logvar. normal i = 0) \<longrightarrow> ?z = mu"
  proof
    assume z: "\<forall>i<length logvar. normal i = 0"
    show "?z = mu"
    proof (rule nth_equalityI)
      show "length ?z = length mu" using len assms by simp
    next
      fix i assume "i < length ?z"
      then have "i < length logvar" using len by simp
      then show "?z ! i = mu ! i" using nth z by simp
    qed
  qed
  show ?thesis using r len nth zero by blast
qed

theorem reparameterize_sample_witness:
  "reparameterize (\<lambda>i. 0) [1, 2] [0, 100] = Inr [1, 2] \<and>
   reparameterize (\<lambda>i. 2) [1] [0] = Inr [3]"
proof -
  obtain z where z: "reparameterize (\<lambda>i. 0) [1, 2] [0, 100] = Inr z"
    "(\<forall>i<length [0, 100::real]. (\<lambda>i. 0::real) i = 0) \<longrightarrow> z = [1, 2]"
    using reparameterize_sample[of "[1, 2]" "[0, 100]" "\<lambda>i. 0"] by auto
  have a: "reparameterize (\<lambda>i. 0) [1, 2] [0, 100] = Inr [1, 2]"
    using z by simp
  obtain y where y: "reparameterize (\<lambda>i. 2) [1] [0] = Inr y" "length y = length [0::real]"
    "\<forall>i<length [0::real]. y ! i = 2 * exp (min (max (0.5 * [0::real] ! i) (- 4)) 15) + [1] ! i"
    using reparameterize_sample[of "[1]" "[0]" "\<lambda>i. 2"] by auto
  have "y = [3]"
    using y(2,3) by (simp add: list_eq_iff_nth_eq)
  then show ?thesis using a y(1) by simp
qed

section \<open>Properties of the backpropagation driver\<close>

lemma norm2_pow2: "(norm2 g)\<^sup>2 = sum_list (map (\<lambda>x. x\<^sup>2) g)"
proof -
  have "0 \<le> sum_list (map (\<lambda>x. x\<^sup>2) g)"
    by (rule sum_list_nonneg) auto
  then show ?thesis by (simp add: norm2_def)
qed

lemma fold_grad_norms:
  "fold (\<lambda>p_grad grad_norms. case p_grad of None \<Rightarrow> grad_norms | Some g \<Rightarrow> grad_norms + (norm2 g)\<^sup>2) gs a =
     a + grad_norm_statistic gs"
  by (induction gs arbitrary: a) (auto simp: grad_norm_statistic_def present_def split: option.splits)

lemma grad_norm_statistic_global: "grad_norm_statistic gs = (global_norm gs)\<^sup>2"
proof -
  have "sum_list (map (\<lambda>g. (norm2 g)\<^sup>2) xs) = sum_list (map (\<lambda>x. x\<^sup>2) (concat xs))" for xs
    by (induction xs) (simp_all add: norm2_pow2)
  then show ?thesis
    by (simp add: grad_norm_statistic_def global_norm_def norm2_pow2)
qed

text \<open>
  C4. When clearing the gradients and backpropagating the loss succeed, leaving the state
  \<open>s2\<close>: without \<open>max_grad_norm\<close> nothing is clipped, the statistic is taken from the
  gradients of \<open>s2\<close> and the optimizer then steps from \<open>s2\<close>; with \<open>max_grad_norm = m\<close> the
  gradients are clipped first, the statistic is taken from the clipped state \<open>s3\<close> and the
  optimizer then steps from \<open>s3\<close>. The value returned with the state after the step is the
  sum, over the parameters whose gradient is present, of the squared L2 norm of the
  gradient; that sum is the square of the global gradient norm, not the norm.
\<close>

theorem backprop_for_loss_sequence:
  assumes "zero_grad fw optim s = Inr s1" and "backward fw loss retain_graph s1 = Inr s2"
  shows "backprop_for_loss fw net optim loss None retain_graph s =
           (case step fw optim s2 of
              Inl e \<Rightarrow> Inl e
            | Inr s4 \<Rightarrow> Inr (grad_norm_statistic (grads fw net s2), s4)) \<and>
         backprop_for_loss fw net optim loss (Some m) retain_graph s =
           (case clip_grad_norm fw net m s2 of
              Inl e \<Rightarrow> Inl e
            | Inr s3 \<Rightarrow>
                (case step fw optim s3 of
                   Inl e \<Rightarrow> Inl e
                 | Inr s4 \<Rightarrow> Inr (grad_norm_statistic (grads fw net s3), s4))) \<and>
         grad_norm_statistic gs = (global_norm gs)\<^sup>2"
  using assms
  by (simp add: backprop_for_loss_def fold_grad_norms grad_norm_statistic_global split: sum.splits)

theorem backprop_for_loss_sequence_witness:
  "backprop_for_loss toy_torch 0 1 2 None False [Some [7], Some [8], None] =
     Inr (25, [Some [3], None, Some [4]]) \<and>
   backprop_for_loss toy_torch 0 1 2 (Some 1) False [Some [7], Some [8], None] =
     Inr (25 / 4, [Some [3 / 2], None, Some [2]]) \<and>
   global_norm [Some [3], None, Some [4]] = 5"
proof -
  have z: "zero_grad toy_torch 1 [Some [7], Some [8], None] = Inr [None, None, None]"
    by (simp add: toy_torch_def)
  have b: "backward toy_torch 2 False [None, None, None] = Inr [Some [3], None, Some [4]]"
    by (simp add: toy_torch_def)
  note t = backprop_for_loss_sequence[OF z b, of 0 1 "[Some [3], None, Some [4]]"]
  have g: "grad_norm_statistic [Some [3], None, Some [4]] = 25"
    by (simp add: grad_norm_statistic_def present_def norm2_def)
  have g2: "grad_norm_statistic [Some [3 / 2], None, Some [2]] = 25 / 4"
    by (simp add: grad_norm_statistic_def present_def norm2_def power2_eq_square)
  have "global_norm [Some [3], None, Some [4]] = sqrt (5\<^sup>2)"
    by (simp add: global_norm_def norm2_def present_def)
  also have "\<dots> = 5"
    by simp
  finally have "global_norm [Some [3], None, Some [4]] = 5" .
  then show ?thesis
    using t g g2 by (simp add: toy_torch_def smul_def)
qed

section \<open>Properties of the scheduler factory\<close>

text \<open>
  C5. The function returns \<open>None\<close> exactly when the configuration holds the empty list under
  \<^verbatim>\<open>learning_rate.epoch_schedule\<close>. When it holds a list that is not empty, and a decay factor
  under \<^verbatim>\<open>learning_rate.decay_factor\<close>, the function returns a scheduler built for the given
  optimizer, with that list as milestones and that decay factor.
\<close>

theorem lr_scheduler_none_iff_empty:
  "(lr_scheduler_from_optim_params net_optim_params net optimizer = Inr None \<longleftrightarrow>
      getitem2 net_optim_params ''learning_rate'' ''epoch_schedule'' = Inr (ListOf [])) \<and>
   (\<forall>ms g. getitem2 net_optim_params ''learning_rate'' ''epoch_schedule'' = Inr (ListOf ms) \<and>
      ms \<noteq> [] \<and>
      getitem2 net_optim_params ''learning_rate'' ''decay_factor'' = Inr g \<longrightarrow>
      lr_scheduler_from_optim_params net_optim_params net optimizer =
        Inr (Some \<lparr>lr_optimizer = optimizer, milestones = ListOf ms, gamma = g\<rparr>))"
proof (intro conjI allI impI)
  show "lr_scheduler_from_optim_params net_optim_params net optimizer = Inr None \<longleftrightarrow>
      getitem2 net_optim_params ''learning_rate'' ''epoch_schedule'' = Inr (ListOf [])"
  proof (cases "getitem2 net_optim_params ''learning_rate'' ''epoch_schedule''")
    case (Inl e)
    then show ?thesis by (simp add: lr_scheduler_from_optim_params_def)
  next
    case (Inr schedule)
    then show ?thesis
      by (cases schedule)
        (auto simp: lr_scheduler_from_optim_params_def len_def split: sum.splits)
  qed
next
  fix ms g
  assume "getitem2 net_optim_params ''learning_rate'' ''epoch_schedule'' = Inr (ListOf ms) \<and>
      ms \<noteq> [] \<and> getitem2 net_optim_params ''learning_rate'' ''decay_factor'' = Inr g"
  then show "lr_scheduler_from_optim_params net_optim_params net optimizer =
        Inr (Some \<lparr>lr_optimizer = optimizer, milestones = ListOf ms, gamma = g\<rparr>)"
    by (simp add: lr_scheduler_from_optim_params_def len_def)
qed

theorem lr_scheduler_none_iff_empty_witness:
  "lr_scheduler_from_optim_params config_no_schedule 0 1 = Inr None \<and>
   lr_scheduler_from_optim_params config_schedule 0 1 =
     Inr (Some \<lparr>lr_optimizer = 1, milestones = ListOf [10, 20], gamma = Scalar (1 / 10)\<rparr>) \<and>
   lr_scheduler_from_optim_params config_schedule 0 1 \<noteq> Inr None"
proof -
  have a: "getitem2 config_no_schedule ''learning_rate'' ''epoch_schedule'' = Inr (ListOf [])"
    by (simp add: config_no_schedule_def getitem2_def getitem_def)
  have b: "getitem2 config_schedule ''learning_rate'' ''epoch_schedule'' = Inr (ListOf [10, 20])"
    by (simp add: config_schedule_def getitem2_def getitem_def)
  have c: "getitem2 config_schedule ''learning_rate'' ''decay_factor'' = Inr (Scalar (1 / 10))"
    by (simp add: config_schedule_def getitem2_def getitem_def)
  have "lr_scheduler_from_optim_params config_no_schedule 0 1 = Inr None"
    using lr_scheduler_none_iff_empty[of config_no_schedule 0 1] a by blast
  moreover have "lr_scheduler_from_optim_params config_schedule 0 1 =
     Inr (Some \<lparr>lr_optimizer = 1, milestones = ListOf [10, 20], gamma = Scalar (1 / 10)\<rparr>)"
    using lr_scheduler_none_iff_empty[of config_schedule 0 1] b c by blast
  moreover have "lr_scheduler_from_optim_params config_schedule 0 1 \<noteq> Inr None"
    using lr_scheduler_none_iff_empty[of config_schedule 0 1] b by simp
  ultimately show ?thesis by simp
qed

section \<open>Properties of the timing helpers\<close>

text \<open>
  C8. With the timer disabled, \<open>tic\<close> returns \<open>None\<close> and \<open>toc\<close> returns \<open>None\<close>, whatever the
  start time, the name and the log are, and both leave the world as it was: no
  synchronisation, no reading of the clock, nothing printed and nothing written.
\<close>

theorem tic_toc_timer_disabled:
  "tic False w = (None, w) \<and> toc fmt start_time name False logfile w = Inr (None, w)"
  by (simp add: tic_def toc_def)

section \<open>Properties of the conditional scope\<close>

text \<open>
  C10. \<open>maybe_no_grad False\<close> is the inert scope. Entering it returns \<open>None\<close> and changes
  nothing; leaving it returns \<open>False\<close> whatever exception it is told of; so a \<^verbatim>\<open>with\<close>
  statement on it hands an exception of its body on to the caller as it is, and a value of
  its body likewise, with the gradient mode untouched.
\<close>

theorem maybe_no_grad_false_inert:
  "maybe_no_grad False = dummy_context_mgr \<and>
   enter (maybe_no_grad False) grad_enabled = (NoneValue, dummy_context_mgr, grad_enabled) \<and>
   exit dummy_context_mgr exc grad_enabled = (BoolValue False, grad_enabled) \<and>
   (body grad_enabled = Inl e \<longrightarrow>
      with_scope (maybe_no_grad False) body grad_enabled = (Inl e, grad_enabled)) \<and>
   (body grad_enabled = Inr v \<longrightarrow>
      with_scope (maybe_no_grad False) body grad_enabled = (Inr (Some v), grad_enabled))"
  by (simp add: maybe_no_grad_def with_scope_def)

theorem maybe_no_grad_false_inert_witness:
  "with_scope (maybe_no_grad False) (\<lambda>g. Inl RuntimeError :: error + nat) True = (Inl RuntimeError, True) \<and>
   with_scope (maybe_no_grad False) (\<lambda>g. Inr (5::nat)) True = (Inr (Some 5), True)"
proof -
  have "with_scope (maybe_no_grad False) (\<lambda>g. Inl RuntimeError :: error + nat) True =
      (Inl RuntimeError, True)"
    using maybe_no_grad_false_inert[of True None "\<lambda>g. Inl RuntimeError :: error + nat" RuntimeError 0]
    by blast
  moreover have "with_scope (maybe_no_grad False) (\<lambda>g. Inr (5::nat)) True = (Inr (Some 5), True)"
    using maybe_no_grad_false_inert[of True None "\<lambda>g. Inr (5::nat)" RuntimeError 5]
    by blast
  ultimately show ?thesis by simp
qed

text \<open>
  The other scope is the one in which the in-place updates of parameters go through:
  entering \<open>maybe_no_grad True\<close> switches the gradient mode off, whatever it was, and
  leaving restores it.
\<close>

lemma maybe_no_grad_true_switches_off:
  "enter (maybe_no_grad True) grad_enabled = (NoneValue, no_grad grad_enabled, False) \<and>
   exit (no_grad grad_enabled) exc False = (NoneValue, grad_enabled)"
  by (simp add: maybe_no_grad_def)

end
